theory Spec2Isabelle
  imports Complex_Main "HOL-Library.Multiset" "HOL-Library.Product_Lexorder"
begin

section \<open>Server records\<close>

text \<open>
  One entry of the list that \<^verbatim>\<open>LoadBalancer.get_servers_for_model\<close> returns: the
  dictionary built in \<^verbatim>\<open>_get_servers_from_db\<close> from a row of \<^verbatim>\<open>ollama_servers\<close>.
  The keys \<^verbatim>\<open>id\<close> and \<^verbatim>\<open>type\<close> are renamed \<open>server_id\<close> and \<open>server_type\<close>.
  \<^verbatim>\<open>weight\<close> and \<^verbatim>\<open>priority\<close> are the Integer columns of the table.
\<close>

record server =
  server_id :: int
  server_url :: string
  actual_model_name :: string
  weight :: int
  priority :: int
  server_type :: string
  performance :: int
  skip_resource_check :: bool

section \<open>Ranking: the retry order of buffered and streaming dispatch\<close>

text \<open>
  \<^verbatim>\<open>sorted(servers, key=lambda x: x['weight'], reverse=True)\<close>: Python's sort is stable
  and stays stable under \<^verbatim>\<open>reverse=True\<close> (elements with equal keys keep their order),
  so it is the stable insertion sort on the negated key.
\<close>

definition get_weighted_server_order :: "server list \<Rightarrow> server list" where
  "get_weighted_server_order servers =
     (if servers = [] then []
      else if length servers = 1 then servers
      else sort_key (\<lambda>x. - weight x) servers)"

text \<open>
  The dictionary \<^verbatim>\<open>priority_groups\<close> as an association list in insertion order:
  \<^verbatim>\<open>if priority not in priority_groups: priority_groups[priority] = []\<close> followed by
  \<^verbatim>\<open>priority_groups[priority].append(server)\<close>.
\<close>

fun add_to_group :: "(int \<times> server list) list \<Rightarrow> server \<Rightarrow> (int \<times> server list) list" where
  "add_to_group [] s = [(priority s, [s])]"
| "add_to_group ((p, g) # rest) s =
     (if p = priority s then (p, g @ [s]) # rest else (p, g) # add_to_group rest s)"

definition priority_groups :: "server list \<Rightarrow> (int \<times> server list) list" where
  "priority_groups all_servers = foldl add_to_group [] all_servers"

text \<open>\<^verbatim>\<open>priority_groups[priority]\<close>; the key is always one of the dictionary's keys.\<close>

definition group_servers :: "(int \<times> server list) list \<Rightarrow> int \<Rightarrow> server list" where
  "group_servers groups p = (case map_of groups p of Some g \<Rightarrow> g | None \<Rightarrow> [])"

text \<open>
  The order in which the two nested loops
  \<^verbatim>\<open>for priority in sorted(priority_groups.keys())\<close> and
  \<^verbatim>\<open>for server in self._get_weighted_server_order(group_servers)\<close> visit the servers.
\<close>

definition full_order :: "server list \<Rightarrow> server list" where
  "full_order all_servers =
     (let groups = priority_groups all_servers
      in concat (map (\<lambda>p. get_weighted_server_order (group_servers groups p))
                     (sort (map fst groups))))"

text \<open>
  \<^verbatim>\<open>LoadBalancer.get_servers_for_model\<close> on the rows the registry query returned for the
  virtual model: \<^verbatim>\<open>config[virtual_model].sort(key=lambda x: x['priority'])\<close>, a stable
  sort.
\<close>

definition get_servers_for_model :: "server list \<Rightarrow> server list" where
  "get_servers_for_model rows = sort_key priority rows"

text \<open>The ordering rule: priority ascending, and weight descending inside a priority.\<close>

definition tried_before :: "server \<Rightarrow> server \<Rightarrow> bool" where
  "tried_before a b =
     (priority a < priority b \<or> (priority a = priority b \<and> weight b \<le> weight a))"

text \<open>Two records of one priority and one weight: a tie of the ordering rule.\<close>

definition same_rank :: "int \<Rightarrow> int \<Rightarrow> server \<Rightarrow> bool" where
  "same_rank p w s = (priority s = p \<and> weight s = w)"

text \<open>The sort key of the ordering rule, compared lexicographically.\<close>

definition rank_key :: "server \<Rightarrow> int \<times> int" where
  "rank_key s = (priority s, - weight s)"

section \<open>Weighted-random single pick\<close>

text \<open>
  The two draws of Python's \<^verbatim>\<open>random\<close> module are inputs of the model:
  \<^verbatim>\<open>random.uniform(a, b)\<close> computes \<^verbatim>\<open>a + (b - a) * self.random()\<close> from a draw
  \<open>u\<close> of \<^verbatim>\<open>random()\<close>, which lies in \<open>[0, 1)\<close>, and \<^verbatim>\<open>random.choice(seq)\<close> is
  \<^verbatim>\<open>seq[self._randbelow(len(seq))]\<close> for a draw \<open>k\<close> below the length. Floating-point
  numbers are the reals.
\<close>

definition uniform :: "real \<Rightarrow> real \<Rightarrow> real \<Rightarrow> real" where
  "uniform a b u = a + (b - a) * u"

definition choice :: "nat \<Rightarrow> 'a list \<Rightarrow> 'a" where
  "choice k seq = seq ! k"

text \<open>
  The loop of \<^verbatim>\<open>_weighted_random_select\<close>:
  \<^verbatim>\<open>current_weight += server['weight']; if random_value <= current_weight: return server\<close>.
  \<open>None\<close> when the loop ends without returning.
\<close>

fun cumulative_walk :: "real \<Rightarrow> int \<Rightarrow> server list \<Rightarrow> server option" where
  "cumulative_walk random_value current_weight [] = None"
| "cumulative_walk random_value current_weight (s # rest) =
     (if random_value \<le> real_of_int (current_weight + weight s) then Some s
      else cumulative_walk random_value (current_weight + weight s) rest)"

text \<open>\<^verbatim>\<open>LoadBalancer._weighted_random_select\<close>; \<open>None\<close> is Python's \<^verbatim>\<open>None\<close>.\<close>

definition weighted_random_select :: "real \<Rightarrow> nat \<Rightarrow> server list \<Rightarrow> server option" where
  "weighted_random_select u k servers =
     (if servers = [] then None
      else if length servers = 1 then Some (servers ! 0)
      else let total_weight = sum_list (map weight servers)
           in if total_weight \<le> 0 then Some (choice k servers)
              else let random_value = uniform 0 (real_of_int total_weight) u
                   in (case cumulative_walk random_value 0 servers of
                         Some s \<Rightarrow> Some s
                       | None \<Rightarrow> Some (last servers)))"

text \<open>
  What the walk is meant to find, stated without the loop: the sum of the first \<open>n\<close>
  weights, and the first index whose cumulative weight reaches the drawn value.
\<close>

definition cumulative_weight :: "server list \<Rightarrow> nat \<Rightarrow> int" where
  "cumulative_weight servers n = sum_list (map weight (take n servers))"

definition captured_at :: "server list \<Rightarrow> real \<Rightarrow> nat \<Rightarrow> bool" where
  "captured_at servers r i =
     (i < length servers \<and> r \<le> real_of_int (cumulative_weight servers (Suc i))
        \<and> (\<forall>j<i. real_of_int (cumulative_weight servers (Suc j)) < r))"

section \<open>Example records\<close>

text \<open>
  The tiers of the specification's example:
  priority 1 holds A (weight 30) and B (weight 70), priority 2 holds C (weight 100).
\<close>

definition candidate :: "int \<Rightarrow> string \<Rightarrow> int \<Rightarrow> int \<Rightarrow> server" where
  "candidate i url p w =
     \<lparr>server_id = i, server_url = url, actual_model_name = ''qwen3:14b'', weight = w,
      priority = p, server_type = ''CPU'', performance = 8, skip_resource_check = False\<rparr>"

definition server_A :: server where
  "server_A = candidate 1 ''http://a:11434'' 1 30"

definition server_B :: server where
  "server_B = candidate 2 ''http://b:11434'' 1 70"

definition server_C :: server where
  "server_C = candidate 3 ''http://c:11434'' 2 100"

section \<open>Python values: strings, parsed JSON, exceptions\<close>

text \<open>
  The messages of the source are f-strings over non-ASCII text. A string value is
  either plain data (\<open>Str\<close>, a byte string) or one of the source's message templates
  with the values it interpolates; the constructor names the template, the comment
  gives the place in the source.
\<close>

datatype pyerror = AttributeError | TypeError | ValueError | JSONDecodeError

datatype monitor_url = MonitorUrl string string int
  \<comment> \<open>\<^verbatim>\<open>f"{parsed.scheme}://{parsed.hostname}:{port}"\<close>\<close>

datatype pystr =
    Str string
  | InterpreterMessage pyerror
    \<comment> \<open>\<^verbatim>\<open>str(e)\<close> of an exception the interpreter raised\<close>
  | StatusAndDetail int pystr
    \<comment> \<open>\<^verbatim>\<open>str(e)\<close> of an \<^verbatim>\<open>HTTPException\<close>\<close>
  | UnknownError
    \<comment> \<open>\<^verbatim>\<open>resource_monitor_client.py\<close>, line 153, the default of \<^verbatim>\<open>result.get('message', ...)\<close>\<close>
  | MonitorStatusError int
    \<comment> \<open>\<^verbatim>\<open>resource_monitor_client.py\<close>, line 157\<close>
  | MonitorTimeout monitor_url
    \<comment> \<open>\<^verbatim>\<open>resource_monitor_client.py\<close>, line 162\<close>
  | MonitorConnectionFailed pystr
    \<comment> \<open>\<^verbatim>\<open>resource_monitor_client.py\<close>, line 167\<close>
  | ResourceCheckException pystr
    \<comment> \<open>\<^verbatim>\<open>resource_monitor_client.py\<close>, line 172\<close>
  | CannotConvertUrl string
    \<comment> \<open>\<^verbatim>\<open>resource_monitor_client.py\<close>, line 107\<close>
  | NoServersConfigured string
    \<comment> \<open>\<^verbatim>\<open>request_proxy.py\<close>, line 69 and 311\<close>
  | AllServersUnavailable string nat pystr
    \<comment> \<open>\<^verbatim>\<open>request_proxy.py\<close>, line 115: model name, \<^verbatim>\<open>total_servers\<close>, \<^verbatim>\<open>str(last_error)\<close>\<close>
  | AllServersUnavailableStreaming string nat pystr
    \<comment> \<open>\<^verbatim>\<open>request_proxy.py\<close>, line 398\<close>
  | HealthCheckFailed string
    \<comment> \<open>\<^verbatim>\<open>request_proxy.py\<close>, line 144 and 344\<close>
  | ResourceInsufficient string string int
    \<comment> \<open>\<^verbatim>\<open>request_proxy.py\<close>, line 177 and 374: server url, type, requirement (the figures of the
        monitor's answer that the message also prints are left out)\<close>
  | ModelOrEndpointNotFound int
    \<comment> \<open>\<^verbatim>\<open>request_proxy.py\<close>, line 218 and 434\<close>
  | ServiceUnavailable int
    \<comment> \<open>\<^verbatim>\<open>request_proxy.py\<close>, line 220\<close>
  | ServerInternalError int
    \<comment> \<open>\<^verbatim>\<open>request_proxy.py\<close>, line 222\<close>
  | StreamServerError int
    \<comment> \<open>\<^verbatim>\<open>request_proxy.py\<close>, line 438\<close>
  | ClientError int pystr
    \<comment> \<open>\<^verbatim>\<open>request_proxy.py\<close>, line 226 and 443: status and the response text\<close>
  | RequestTimedOut string string
    \<comment> \<open>\<^verbatim>\<open>request_proxy.py\<close>, line 261: server url and path\<close>
  | ConnectionFailed pystr
    \<comment> \<open>\<^verbatim>\<open>request_proxy.py\<close>, line 269\<close>
  | StreamingException pystr
    \<comment> \<open>\<^verbatim>\<open>request_proxy.py\<close>, line 466\<close>

text \<open>
  A value \<^verbatim>\<open>json.loads\<close> returns. A dictionary is an association list; its keys are
  plain strings.
\<close>

datatype json =
    JNull
  | JBool bool
  | JNum real
  | JStr pystr
  | JArr "json list"
  | JObj "(string \<times> json) list"

type_synonym dict = "(string \<times> json) list"

text \<open>Truth value testing: \<^verbatim>\<open>if x\<close>, \<^verbatim>\<open>not x\<close>.\<close>

fun truthy :: "json \<Rightarrow> bool" where
  "truthy JNull = False"
| "truthy (JBool b) = b"
| "truthy (JNum x) = (x \<noteq> 0)"
| "truthy (JStr t) = (t \<noteq> Str [])"
| "truthy (JArr xs) = (xs \<noteq> [])"
| "truthy (JObj d) = (d \<noteq> [])"

text \<open>\<^verbatim>\<open>d.get(key, default)\<close> and \<^verbatim>\<open>d[key] = value\<close>.\<close>

definition get_default :: "dict \<Rightarrow> string \<Rightarrow> json \<Rightarrow> json" where
  "get_default d key fallback = (case map_of d key of Some v \<Rightarrow> v | None \<Rightarrow> fallback)"

fun setitem :: "dict \<Rightarrow> string \<Rightarrow> json \<Rightarrow> dict" where
  "setitem [] key v = [(key, v)]"
| "setitem ((k, x) # rest) key v =
     (if k = key then (k, v) # rest else (k, x) # setitem rest key v)"

text \<open>
  The exceptions of the source. \<open>Raised\<close> is an exception the interpreter raises
  (\<^verbatim>\<open>AttributeError\<close>, \<^verbatim>\<open>TypeError\<close>, ...), \<open>OtherException\<close> any other exception of a
  library, given by its \<^verbatim>\<open>str\<close>. All of them derive from \<^verbatim>\<open>Exception\<close>.
\<close>

datatype exn =
    Exception pystr
  | HTTPException int pystr
  | Raised pyerror
  | OtherException pystr

fun str_of :: "exn \<Rightarrow> pystr" where
  "str_of (Exception msg) = msg"
| "str_of (HTTPException status detail) = StatusAndDetail status detail"
| "str_of (Raised e) = InterpreterMessage e"
| "str_of (OtherException msg) = msg"

text \<open>\<^verbatim>\<open>str(last_error)\<close>, where \<^verbatim>\<open>last_error\<close> starts as \<^verbatim>\<open>None\<close>.\<close>

definition str_of_last :: "exn option \<Rightarrow> pystr" where
  "str_of_last e = (case e of None \<Rightarrow> Str ''None'' | Some x \<Rightarrow> str_of x)"

text \<open>
  What an HTTP call of \<^verbatim>\<open>httpx\<close> comes to: \<^verbatim>\<open>httpx.TimeoutException\<close>,
  \<^verbatim>\<open>httpx.RequestError\<close> (with its \<^verbatim>\<open>str\<close>), any other exception, or a response with
  its status code, its \<^verbatim>\<open>text\<close> and what \<^verbatim>\<open>response.json()\<close> returns (\<open>None\<close> when it
  raises \<^verbatim>\<open>JSONDecodeError\<close>).
\<close>

datatype http_reply =
    TimedOut
  | RequestFailed pystr
  | Failed pystr
  | Response int pystr "json option"

text \<open>The remote calls and registry writes a request causes, in order.\<close>

datatype event =
    HealthProbe string
    \<comment> \<open>\<^verbatim>\<open>GET {server_url}/api/tags\<close>\<close>
  | ResourceCheckPost monitor_url string int
    \<comment> \<open>\<^verbatim>\<open>POST {resource_monitor_url}/resource-check\<close> with type and performance\<close>
  | Forward string string "dict option"
    \<comment> \<open>the request to \<^verbatim>\<open>{server_url}{path}\<close> with the rewritten JSON body\<close>
  | OpenStream string string "dict option"
    \<comment> \<open>\<^verbatim>\<open>client.stream\<close> to \<^verbatim>\<open>{server_url}{path}\<close>\<close>
  | IncrementServerCount int
    \<comment> \<open>\<^verbatim>\<open>db_manager.increment_server_count(server['id'])\<close>\<close>

section \<open>Resource gate\<close>

text \<open>\<^verbatim>\<open>resource_cache_config.py\<close>\<close>

definition SAME_MODEL_INTERVAL :: real where
  "SAME_MODEL_INTERVAL = 1200"

definition MODEL_USAGE_WINDOW :: real where
  "MODEL_USAGE_WINDOW = 2400"

text \<open>
  The process state the requests share: \<^verbatim>\<open>ResourceMonitorClient._model_usage_history\<close>,
  and the remote calls made so far.
\<close>

record state =
  model_usage_history :: "string \<rightharpoonup> real"
  events :: "event list"

text \<open>
  What the world answers during one attempt on one server: the values \<^verbatim>\<open>time.time()\<close>
  returns in \<^verbatim>\<open>_should_skip_resource_check\<close> and in \<^verbatim>\<open>_track_model_usage\<close>, the
  ports read from the environment, \<^verbatim>\<open>urlparse\<close> (scheme and host name, \<open>None\<close> when it
  raises), and the answers of the health probe, the resource monitor and the backend.
\<close>

datatype health_reply = HealthStatus int | HealthRaised

datatype in_chunk = Chunk pystr bool "json option"
  \<comment> \<open>a chunk of \<^verbatim>\<open>response.aiter_text()\<close>: the text, whether \<^verbatim>\<open>chunk.strip()\<close> is
      non-empty, and what \<^verbatim>\<open>json.loads(chunk)\<close> returns (\<open>None\<close> when it raises)\<close>

datatype stream_reply =
    StreamRaised pystr
    \<comment> \<open>\<^verbatim>\<open>client.stream\<close> raises before a status line is known\<close>
  | StreamOpened int pystr "in_chunk list" "pystr option"
    \<comment> \<open>status, the body read by \<^verbatim>\<open>aread()\<close>, the chunks received, and the \<^verbatim>\<open>str\<close> of
        the exception that ends the iteration early, if one does\<close>

record world =
  time_at_skip_check :: real
  time_at_track :: real
  RESOURCE_MONITOR_CPU_PORT :: int
  RESOURCE_MONITOR_GPU_PORT :: int
  urlparse :: "string \<Rightarrow> (string \<times> string) option"
  health :: health_reply
  monitor :: http_reply
  backend :: http_reply
  stream :: stream_reply

text \<open>
  The methods of \<^verbatim>\<open>ResourceMonitorClient\<close>; their parameter \<^verbatim>\<open>server_url\<close> is written
  \<open>url\<close> and \<^verbatim>\<open>server_type\<close> is written \<open>stype\<close>, the record's fields having these names.
\<close>

definition usage_key :: "string \<Rightarrow> string \<Rightarrow> string" where
  "usage_key url model_name = url @ '':'' @ model_name"

definition should_skip_resource_check ::
  "(string \<rightharpoonup> real) \<Rightarrow> real \<Rightarrow> string \<Rightarrow> string \<Rightarrow> bool" where
  "should_skip_resource_check history current_time url model_name =
     (let last_usage_time =
            (case history (usage_key url model_name) of Some t \<Rightarrow> t | None \<Rightarrow> 0)
      in current_time - last_usage_time < SAME_MODEL_INTERVAL)"

definition track_model_usage ::
  "(string \<rightharpoonup> real) \<Rightarrow> real \<Rightarrow> string \<Rightarrow> string \<Rightarrow> (string \<rightharpoonup> real)" where
  "track_model_usage history current_time url model_name =
     (let recorded = history(usage_key url model_name \<mapsto> current_time)
      in (\<lambda>key. case recorded key of
                   None \<Rightarrow> None
                 | Some timestamp \<Rightarrow>
                     if current_time - timestamp > MODEL_USAGE_WINDOW then None
                     else Some timestamp))"

text \<open>\<^verbatim>\<open>server_type.upper()\<close> on the bytes of the string.\<close>

definition upper_char :: "char \<Rightarrow> char" where
  "upper_char c =
     (let n = (of_char c :: nat) in if 97 \<le> n \<and> n \<le> 122 then char_of (n - 32) else c)"

definition upper :: "string \<Rightarrow> string" where
  "upper s = map upper_char s"

definition convert_url_to_resource_monitor :: "world \<Rightarrow> string \<Rightarrow> string \<Rightarrow> monitor_url option" where
  "convert_url_to_resource_monitor W url stype =
     (case urlparse W url of
        None \<Rightarrow> None
      | Some (scheme, hostname) \<Rightarrow>
          let port = (if upper stype = ''GPU'' then RESOURCE_MONITOR_GPU_PORT W
                      else RESOURCE_MONITOR_CPU_PORT W)
          in Some (MonitorUrl scheme hostname port))"

text \<open>
  \<^verbatim>\<open>f"{x:.1f}"\<close> in the log lines of the success branch: \<open>None\<close> when the value can be
  formatted, otherwise the exception the format raises.
\<close>

fun format_1f :: "json \<Rightarrow> pyerror option" where
  "format_1f (JNum x) = None"
| "format_1f (JBool b) = None"
| "format_1f (JStr t) = Some ValueError"
| "format_1f v = Some TypeError"

text \<open>
  The branch \<^verbatim>\<open>if response.status_code == 200\<close> up to its \<^verbatim>\<open>return\<close>, without the
  cache update: the exception raised on the way (all are caught by the final
  \<^verbatim>\<open>except Exception\<close>), or the message of an unsuccessful payload, or the sufficiency
  flag with the data dictionary.
\<close>

datatype check_payload = Unsuccessful json | Sufficiency json dict

fun first_format_error :: "json list \<Rightarrow> pyerror option" where
  "first_format_error [] = None"
| "first_format_error (v # vs) =
     (case format_1f v of Some e \<Rightarrow> Some e | None \<Rightarrow> first_format_error vs)"

definition read_success_data :: "json \<Rightarrow> pyerror + check_payload" where
  "read_success_data d =
     (case d of
        JObj data \<Rightarrow>
          (let is_sufficient = get_default data ''sufficient'' (JBool False);
               available_gb = get_default data ''available_gb'' (JNum 0);
               total_gb = get_default data ''total_gb'' (JNum 0);
               usage_percent = get_default data ''usage_percent'' (JNum 0)
           in case first_format_error [total_gb, available_gb, usage_percent] of
                Some e \<Rightarrow> Inl e
              | None \<Rightarrow> Inr (Sufficiency is_sufficient data))
      | _ \<Rightarrow> Inl AttributeError)"

definition read_payload :: "json option \<Rightarrow> pyerror + check_payload" where
  "read_payload parsed =
     (case parsed of
        None \<Rightarrow> Inl JSONDecodeError
      | Some (JObj result) \<Rightarrow>
          if map_of result ''status'' = Some (JStr (Str ''success''))
          then read_success_data (get_default result ''data'' (JObj []))
          else Inr (Unsuccessful (get_default result ''message'' (JStr UnknownError)))
      | Some _ \<Rightarrow> Inl AttributeError)"

definition error_info :: "pystr \<Rightarrow> dict" where
  "error_info error_msg = [(''error'', JStr error_msg)]"

text \<open>
  \<^verbatim>\<open>ResourceMonitorClient.check_server_resource\<close>. \<open>Inl\<close> is the exception it raises
  (only the one before the \<^verbatim>\<open>try\<close>), \<open>Inr\<close> the pair it returns. \<^verbatim>\<open>model_name\<close> is
  \<open>None\<close> for Python's \<^verbatim>\<open>None\<close>; \<^verbatim>\<open>if model_name\<close> also fails for the empty string.
\<close>

definition name_given :: "string option \<Rightarrow> bool" where
  "name_given model_name = (case model_name of None \<Rightarrow> False | Some m \<Rightarrow> m \<noteq> [])"

definition name_of :: "string option \<Rightarrow> string" where
  "name_of model_name = (case model_name of None \<Rightarrow> [] | Some m \<Rightarrow> m)"

definition check_server_resource ::
  "world \<Rightarrow> string \<Rightarrow> string \<Rightarrow> int \<Rightarrow> string option \<Rightarrow> state \<Rightarrow> (exn + json \<times> dict) \<times> state" where
  "check_server_resource W url stype performance_gb model_name st =
     (if name_given model_name
          \<and> should_skip_resource_check (model_usage_history st) (time_at_skip_check W)
                url (name_of model_name)
      then (Inr (JBool True,
                 [(''skipped'', JBool True), (''reason'', JStr (Str ''same_model_concurrent''))]),
            st)
      else
        (case convert_url_to_resource_monitor W url stype of
           None \<Rightarrow> (Inl (Exception (CannotConvertUrl url)), st)
         | Some resource_monitor_url \<Rightarrow>
            (let posted = st\<lparr>events := events st
                              @ [ResourceCheckPost resource_monitor_url stype performance_gb]\<rparr>
             in case monitor W of
                  TimedOut \<Rightarrow>
                    (Inr (JBool False, error_info (MonitorTimeout resource_monitor_url)), posted)
                | RequestFailed e \<Rightarrow>
                    (Inr (JBool False, error_info (MonitorConnectionFailed e)), posted)
                | Failed e \<Rightarrow>
                    (Inr (JBool False, error_info (ResourceCheckException e)), posted)
                | Response status_code body parsed \<Rightarrow>
                    if status_code = 200 then
                      (case read_payload parsed of
                         Inl e \<Rightarrow>
                           (Inr (JBool False,
                                 error_info (ResourceCheckException (InterpreterMessage e))),
                            posted)
                       | Inr (Unsuccessful error_msg) \<Rightarrow>
                           (Inr (JBool False, [(''error'', error_msg)]), posted)
                       | Inr (Sufficiency is_sufficient data) \<Rightarrow>
                           (Inr (is_sufficient, data),
                            if name_given model_name
                            then posted\<lparr>model_usage_history :=
                                   track_model_usage (model_usage_history posted)
                                     (time_at_track W) url (name_of model_name)\<rparr>
                            else posted))
                    else
                      (Inr (JBool False, error_info (MonitorStatusError status_code)), posted))))"

text \<open>
  The answers of the resource monitor that the check takes the sufficiency flag from, as
  its contract describes them: HTTP 200 with a JSON object whose \<^verbatim>\<open>status\<close> is
  \<^verbatim>\<open>"success"\<close> and whose \<^verbatim>\<open>data\<close> (an object, when present) carries numbers for the
  capacity figures it has. Every other answer is a failure of the check: a timeout, a
  transport error, another status code, a body that is not JSON, or a payload that is
  malformed or not successful.
\<close>

definition numeric_or_absent :: "dict \<Rightarrow> string \<Rightarrow> bool" where
  "numeric_or_absent data key =
     (case map_of data key of
        None \<Rightarrow> True
      | Some (JNum x) \<Rightarrow> True
      | Some (JBool b) \<Rightarrow> True
      | Some _ \<Rightarrow> False)"

definition well_formed_data :: "json \<Rightarrow> bool" where
  "well_formed_data d =
     (case d of
        JObj data \<Rightarrow>
          numeric_or_absent data ''total_gb''
          \<and> numeric_or_absent data ''available_gb''
          \<and> numeric_or_absent data ''usage_percent''
      | _ \<Rightarrow> False)"

definition well_formed_payload :: "json option \<Rightarrow> bool" where
  "well_formed_payload parsed =
     (case parsed of
        Some (JObj result) \<Rightarrow>
          map_of result ''status'' = Some (JStr (Str ''success''))
          \<and> well_formed_data (get_default result ''data'' (JObj []))
      | _ \<Rightarrow> False)"

definition well_formed_success :: "http_reply \<Rightarrow> bool" where
  "well_formed_success r =
     (case r of
        Response status_code body parsed \<Rightarrow> status_code = 200 \<and> well_formed_payload parsed
      | _ \<Rightarrow> False)"

text \<open>The flag a well-formed answer reports, \<^verbatim>\<open>False\<close> when it reports none.\<close>

definition reported_sufficient :: "http_reply \<Rightarrow> json" where
  "reported_sufficient r =
     (case r of
        Response status_code body (Some (JObj result)) \<Rightarrow>
          (case get_default result ''data'' (JObj []) of
             JObj data \<Rightarrow> get_default data ''sufficient'' (JBool False)
           | _ \<Rightarrow> JBool False)
      | _ \<Rightarrow> JBool False)"

section \<open>Example worlds\<close>

text \<open>
  A world in which every service answers well: the backend is healthy, the monitor
  reports enough capacity, and the backend answers the request with status 200.
\<close>

definition sufficient_payload :: json where
  "sufficient_payload =
     JObj [(''status'', JStr (Str ''success'')),
           (''data'', JObj [(''sufficient'', JBool True), (''available_gb'', JNum 10),
                            (''total_gb'', JNum 16), (''usage_percent'', JNum 40)])]"

definition fine_world :: world where
  "fine_world =
     \<lparr>time_at_skip_check = 5000, time_at_track = 5001,
      RESOURCE_MONITOR_CPU_PORT = 8005, RESOURCE_MONITOR_GPU_PORT = 8006,
      urlparse = (\<lambda>u. Some (''http'', ''host'')),
      health = HealthStatus 200,
      monitor = Response 200 (Str ''{...}'') (Some sufficient_payload),
      backend = Response 200 (Str ''{...}'')
                  (Some (JObj [(''model'', JStr (Str ''qwen3:14b'')), (''done'', JBool True)])),
      stream = StreamOpened 200 (Str [])
                 [Chunk (Str ''{...}'') True
                    (Some (JObj [(''model'', JStr (Str ''qwen3:14b'')), (''done'', JBool True)]))]
                 None\<rparr>"

definition idle_state :: state where
  "idle_state = \<lparr>model_usage_history = Map.empty, events = []\<rparr>"

section \<open>Buffered dispatch\<close>

text \<open>\<^verbatim>\<open>LoadBalancer.check_server_health\<close>: healthy exactly on status 200.\<close>

definition check_server_health :: "health_reply \<Rightarrow> bool" where
  "check_server_health r =
     (case r of HealthStatus status_code \<Rightarrow> status_code = 200 | HealthRaised \<Rightarrow> False)"

text \<open>
  The request as far as the dispatch reads it: the path and the JSON body. The method,
  the headers (passed on without the hop-by-hop ones) and the query parameters do not
  influence the walk over the candidates.
\<close>

record request =
  path :: string
  json_data :: "dict option"

text \<open>
  \<^verbatim>\<open>request_json = json_data.copy() if json_data else None\<close>, then
  \<^verbatim>\<open>if request_json and 'model' in request_json: request_json['model'] = actual_model_name\<close>.
\<close>

definition rewrite_request :: "dict option \<Rightarrow> string \<Rightarrow> dict option" where
  "rewrite_request data actual =
     (case data of
        None \<Rightarrow> None
      | Some d \<Rightarrow>
          if d = [] then None
          else if map_of d ''model'' \<noteq> None then Some (setitem d ''model'' (JStr (Str actual)))
          else Some d)"

text \<open>
  The status check of \<^verbatim>\<open>_try_single_server\<close>: the exception raised for the status, if
  one is.
\<close>

definition status_error :: "int \<Rightarrow> pystr \<Rightarrow> exn option" where
  "status_error status_code body =
     (if status_code = 404 then Some (Exception (ModelOrEndpointNotFound status_code))
      else if status_code = 503 then Some (Exception (ServiceUnavailable status_code))
      else if status_code \<ge> 500 then Some (Exception (ServerInternalError status_code))
      else if status_code \<ge> 400 then Some (Exception (ClientError status_code body))
      else None)"

text \<open>
  The rewrite of the model names in the response.
  \<^verbatim>\<open>if model_info.get('name') == actual_model_name: model_info['name'] = model_name\<close>
  raises \<^verbatim>\<open>AttributeError\<close> on an entry that is not a dictionary.
\<close>

fun rename_model_info :: "string \<Rightarrow> string \<Rightarrow> json \<Rightarrow> pyerror + json" where
  "rename_model_info model_name actual (JObj model_info) =
     Inr (JObj (if map_of model_info ''name'' = Some (JStr (Str actual))
                then setitem model_info ''name'' (JStr (Str model_name))
                else model_info))"
| "rename_model_info model_name actual v = Inl AttributeError"

fun rename_models :: "string \<Rightarrow> string \<Rightarrow> json list \<Rightarrow> pyerror + json list" where
  "rename_models model_name actual [] = Inr []"
| "rename_models model_name actual (x # xs) =
     (case rename_model_info model_name actual x of
        Inl e \<Rightarrow> Inl e
      | Inr x' \<Rightarrow>
          (case rename_models model_name actual xs of
             Inl e \<Rightarrow> Inl e
           | Inr xs' \<Rightarrow> Inr (x' # xs')))"

text \<open>
  \<^verbatim>\<open>for model_info in response_data['models']\<close>: a list is walked; a dictionary yields
  its keys and a string its characters, which have no \<^verbatim>\<open>get\<close>; anything else is not
  iterable.
\<close>

definition rename_in_models :: "string \<Rightarrow> string \<Rightarrow> json \<Rightarrow> pyerror + json" where
  "rename_in_models model_name actual models =
     (case models of
        JArr items \<Rightarrow>
          (case rename_models model_name actual items of
             Inl e \<Rightarrow> Inl e
           | Inr items' \<Rightarrow> Inr (JArr items'))
      | JObj d \<Rightarrow> if d = [] then Inr (JObj d) else Inl AttributeError
      | JStr t \<Rightarrow> if t = Str [] then Inr (JStr t) else Inl AttributeError
      | _ \<Rightarrow> Inl TypeError)"

definition translate_response :: "string \<Rightarrow> string \<Rightarrow> json \<Rightarrow> pyerror + json" where
  "translate_response model_name actual response_data =
     (case response_data of
        JObj d \<Rightarrow>
          if map_of d ''model'' \<noteq> None
          then Inr (JObj (setitem d ''model'' (JStr (Str model_name))))
          else (case map_of d ''models'' of
                  None \<Rightarrow> Inr (JObj d)
                | Some models \<Rightarrow>
                    (case rename_in_models model_name actual models of
                       Inl e \<Rightarrow> Inl e
                     | Inr models' \<Rightarrow> Inr (JObj (setitem d ''models'' models'))))
      | _ \<Rightarrow> Inr response_data)"

text \<open>
  The second half of \<^verbatim>\<open>_try_single_server\<close>: the request to the backend and the
  handling of its answer. \<open>Inl\<close> is the exception that leaves the function.
\<close>

definition forward_request :: "world \<Rightarrow> string \<Rightarrow> server \<Rightarrow> request \<Rightarrow> state \<Rightarrow> (exn + json) \<times> state" where
  "forward_request W model_name server rq st =
     (let sent = st\<lparr>events := events st
                    @ [Forward (server_url server) (path rq)
                         (rewrite_request (json_data rq) (actual_model_name server))]\<rparr>
      in case backend W of
           TimedOut \<Rightarrow>
             (Inl (Exception (RequestTimedOut (server_url server) (path rq))), sent)
         | RequestFailed e \<Rightarrow> (Inl (Exception (ConnectionFailed e)), sent)
         | Failed e \<Rightarrow> (Inl (OtherException e), sent)
         | Response status_code body parsed \<Rightarrow>
             (case status_error status_code body of
                Some e \<Rightarrow> (Inl e, sent)
              | None \<Rightarrow>
                  (case parsed of
                     None \<Rightarrow> (Inr (JObj [(''response'', JStr body)]), sent)
                   | Some response_data \<Rightarrow>
                       (case translate_response model_name (actual_model_name server)
                               response_data of
                          Inl e \<Rightarrow> (Inl (Raised e), sent)
                        | Inr translated \<Rightarrow>
                            (Inr translated,
                             sent\<lparr>events := events sent
                                     @ [IncrementServerCount (server_id server)]\<rparr>)))))"

text \<open>
  The health check and the resource check that dispatch runs before it uses a server
  (\<^verbatim>\<open>_try_single_server\<close>, and the body of the loop of \<^verbatim>\<open>proxy_streaming_request\<close>):
  \<open>Some\<close> the exception that gives the server up. The records of the registry always
  carry \<^verbatim>\<open>type\<close> and \<^verbatim>\<open>performance\<close>; the log lines print figures that
  \<^verbatim>\<open>check_server_resource\<close> has formatted before, or the default 0.
\<close>

definition gate_server :: "world \<Rightarrow> string \<Rightarrow> server \<Rightarrow> state \<Rightarrow> exn option \<times> state" where
  "gate_server W model_name server st =
     (let probed = st\<lparr>events := events st @ [HealthProbe (server_url server)]\<rparr>
      in if \<not> check_server_health (health W)
         then (Some (Exception (HealthCheckFailed (server_url server))), probed)
         else if skip_resource_check server then (None, probed)
         else
           (case check_server_resource W (server_url server) (server_type server)
                   (performance server) (Some model_name) probed of
              (Inl e, checked) \<Rightarrow> (Some e, checked)
            | (Inr (is_sufficient, resource_info), checked) \<Rightarrow>
                if \<not> truthy is_sufficient
                   \<and> \<not> truthy (get_default resource_info ''skipped'' (JBool False))
                then (Some (Exception (ResourceInsufficient (server_url server)
                                         (server_type server) (performance server))),
                      checked)
                else (None, checked)))"

definition try_single_server :: "world \<Rightarrow> string \<Rightarrow> server \<Rightarrow> request \<Rightarrow> state \<Rightarrow> (exn + json) \<times> state" where
  "try_single_server W model_name server rq st =
     (case gate_server W model_name server st of
        (Some e, st') \<Rightarrow> (Inl e, st')
      | (None, st') \<Rightarrow> forward_request W model_name server rq st')"

text \<open>
  The variables of the loops of \<^verbatim>\<open>_proxy_model_request\<close>: \<^verbatim>\<open>last_error\<close>,
  \<^verbatim>\<open>total_attempts\<close>, the servers the loop has tried so far, in order (what the log line
  of each attempt records), and the shared state. \<open>Ws n s\<close> is the world during attempt
  \<open>n\<close>, made on server \<open>s\<close>.
\<close>

record walk =
  last_error :: "exn option"
  total_attempts :: nat
  attempted :: "server list"
  shared :: state

definition start_walk :: "state \<Rightarrow> walk" where
  "start_walk st = \<lparr>last_error = None, total_attempts = 0, attempted = [], shared = st\<rparr>"

text \<open>
  \<^verbatim>\<open>for server in weighted_servers\<close>: \<open>Some\<close> the response when an attempt returns,
  \<open>None\<close> when the loop runs to its end.
\<close>

fun try_servers ::
  "(nat \<Rightarrow> server \<Rightarrow> world) \<Rightarrow> string \<Rightarrow> request \<Rightarrow> server list \<Rightarrow> walk \<Rightarrow> json option \<times> walk" where
  "try_servers Ws model_name rq [] w = (None, w)"
| "try_servers Ws model_name rq (server # rest) w =
     (let n = total_attempts w + 1
      in case try_single_server (Ws n server) model_name server rq (shared w) of
           (Inr response, st') \<Rightarrow>
             (Some response,
              w\<lparr>total_attempts := n, attempted := attempted w @ [server], shared := st'\<rparr>)
         | (Inl e, st') \<Rightarrow>
             try_servers Ws model_name rq rest
               (w\<lparr>last_error := Some e, total_attempts := n,
                  attempted := attempted w @ [server], shared := st'\<rparr>))"

text \<open>\<^verbatim>\<open>for priority in sorted(priority_groups.keys())\<close>\<close>

fun try_priorities ::
  "(nat \<Rightarrow> server \<Rightarrow> world) \<Rightarrow> string \<Rightarrow> request \<Rightarrow> (int \<times> server list) list \<Rightarrow> int list \<Rightarrow> walk
     \<Rightarrow> json option \<times> walk" where
  "try_priorities Ws model_name rq groups [] w = (None, w)"
| "try_priorities Ws model_name rq groups (p # ps) w =
     (case try_servers Ws model_name rq
             (get_weighted_server_order (group_servers groups p)) w of
        (Some response, w') \<Rightarrow> (Some response, w')
      | (None, w') \<Rightarrow> try_priorities Ws model_name rq groups ps w')"

text \<open>
  \<^verbatim>\<open>RequestProxy._proxy_model_request\<close> on the list \<^verbatim>\<open>get_servers_for_model\<close> returned:
  the response or the exception raised, with the final values of the loop variables.
\<close>

definition proxy_model_request ::
  "(nat \<Rightarrow> server \<Rightarrow> world) \<Rightarrow> string \<Rightarrow> request \<Rightarrow> server list \<Rightarrow> state \<Rightarrow> (exn + json) \<times> walk" where
  "proxy_model_request Ws model_name rq all_servers st =
     (if all_servers = []
      then (Inl (HTTPException 503 (NoServersConfigured model_name)), start_walk st)
      else
        (let groups = priority_groups all_servers;
             total_servers = sum_list (map (\<lambda>(p, servers). length servers) groups)
         in case try_priorities Ws model_name rq groups (sort (map fst groups))
                   (start_walk st) of
              (Some response, w) \<Rightarrow> (Inr response, w)
            | (None, w) \<Rightarrow>
                (Inl (HTTPException 503
                        (AllServersUnavailable model_name total_servers
                           (str_of_last (last_error w)))),
                 w)))"

section \<open>Streaming dispatch\<close>

text \<open>
  What the generator yields: \<^verbatim>\<open>json.dumps(data) + '\n'\<close>, a chunk passed on as it
  came, or the error event \<^verbatim>\<open>data: {"error": error_msg}\<close>.
\<close>

datatype out_chunk = JsonLine json | Verbatim pystr | ErrorEvent pystr

fun forward_chunk :: "string \<Rightarrow> in_chunk \<Rightarrow> out_chunk list" where
  "forward_chunk model_name (Chunk raw nonblank parsed) =
     (if \<not> nonblank then []
      else case parsed of
             None \<Rightarrow> [Verbatim raw]
           | Some (JObj d) \<Rightarrow>
               [JsonLine (JObj (if map_of d ''model'' \<noteq> None
                                then setitem d ''model'' (JStr (Str model_name)) else d))]
           | Some data \<Rightarrow> [JsonLine data])"

text \<open>
  \<^verbatim>\<open>stream_generator\<close> of \<^verbatim>\<open>_create_streaming_response\<close>, run to its end: the chunks
  it yields and the remote calls it makes. Every exception raised in its \<^verbatim>\<open>try\<close>
  block, the ones for a failed status among them, is caught by its own
  \<^verbatim>\<open>except Exception\<close>, which yields the error event.
\<close>

definition stream_generator ::
  "world \<Rightarrow> string \<Rightarrow> server \<Rightarrow> request \<Rightarrow> out_chunk list \<times> event list" where
  "stream_generator W model_name server rq =
     (let opened = [OpenStream (server_url server) (path rq)
                      (rewrite_request (json_data rq) (actual_model_name server))]
      in case stream W of
           StreamRaised e \<Rightarrow> ([ErrorEvent (StreamingException e)], opened)
         | StreamOpened status_code body chunks broken \<Rightarrow>
             if status_code = 404
             then ([ErrorEvent (StreamingException (ModelOrEndpointNotFound status_code))],
                   opened)
             else if status_code \<ge> 500
             then ([ErrorEvent (StreamingException (StreamServerError status_code))], opened)
             else if status_code \<ge> 400
             then ([ErrorEvent (StreamingException (ClientError status_code body))], opened)
             else (concat (map (forward_chunk model_name) chunks)
                     @ (case broken of
                          None \<Rightarrow> []
                        | Some e \<Rightarrow> [ErrorEvent (StreamingException e)]),
                   opened @ [IncrementServerCount (server_id server)]))"

text \<open>
  \<^verbatim>\<open>_create_streaming_response\<close> returns the \<^verbatim>\<open>StreamingResponse\<close> around the
  generator without running it: the response names the server and the attempt. The
  loops of \<^verbatim>\<open>proxy_streaming_request\<close> return it for the first server that passes the
  health check and the resource check.
\<close>

datatype streaming_response = StreamingResponse server nat

fun stream_servers ::
  "(nat \<Rightarrow> server \<Rightarrow> world) \<Rightarrow> string \<Rightarrow> server list \<Rightarrow> walk \<Rightarrow> streaming_response option \<times> walk" where
  "stream_servers Ws model_name [] w = (None, w)"
| "stream_servers Ws model_name (server # rest) w =
     (let n = total_attempts w + 1
      in case gate_server (Ws n server) model_name server (shared w) of
           (None, st') \<Rightarrow>
             (Some (StreamingResponse server n),
              w\<lparr>total_attempts := n, attempted := attempted w @ [server], shared := st'\<rparr>)
         | (Some e, st') \<Rightarrow>
             stream_servers Ws model_name rest
               (w\<lparr>last_error := Some e, total_attempts := n,
                  attempted := attempted w @ [server], shared := st'\<rparr>))"

fun stream_priorities ::
  "(nat \<Rightarrow> server \<Rightarrow> world) \<Rightarrow> string \<Rightarrow> (int \<times> server list) list \<Rightarrow> int list \<Rightarrow> walk
     \<Rightarrow> streaming_response option \<times> walk" where
  "stream_priorities Ws model_name groups [] w = (None, w)"
| "stream_priorities Ws model_name groups (p # ps) w =
     (case stream_servers Ws model_name
             (get_weighted_server_order (group_servers groups p)) w of
        (Some response, w') \<Rightarrow> (Some response, w')
      | (None, w') \<Rightarrow> stream_priorities Ws model_name groups ps w')"

definition proxy_streaming_request ::
  "(nat \<Rightarrow> server \<Rightarrow> world) \<Rightarrow> string \<Rightarrow> server list \<Rightarrow> state
     \<Rightarrow> (exn + streaming_response) \<times> walk" where
  "proxy_streaming_request Ws model_name all_servers st =
     (if all_servers = []
      then (Inl (HTTPException 503 (NoServersConfigured model_name)), start_walk st)
      else
        (let groups = priority_groups all_servers;
             total_servers = sum_list (map (\<lambda>(p, servers). length servers) groups)
         in case stream_priorities Ws model_name groups (sort (map fst groups))
                   (start_walk st) of
              (Some response, w) \<Rightarrow> (Inr response, w)
            | (None, w) \<Rightarrow>
                (Inl (HTTPException 503
                        (AllServersUnavailableStreaming model_name total_servers
                           (str_of_last (last_error w)))),
                 w)))"

text \<open>The body the caller receives when the response is sent.\<close>

fun response_body ::
  "(nat \<Rightarrow> server \<Rightarrow> world) \<Rightarrow> string \<Rightarrow> request \<Rightarrow> streaming_response \<Rightarrow> out_chunk list" where
  "response_body Ws model_name rq (StreamingResponse server n) =
     fst (stream_generator (Ws n server) model_name server rq)"

section \<open>What an attempt does to the walk\<close>




section \<open>Example worlds of a dispatch\<close>

text \<open>
  The example of the specification: A and B fail their health check, C is healthy,
  has enough capacity and answers.
\<close>

definition tiers_world :: "nat \<Rightarrow> server \<Rightarrow> world" where
  "tiers_world n s =
     (if server_url s = ''http://c:11434'' then fine_world
      else fine_world\<lparr>health := HealthRaised\<rparr>)"



text \<open>
  Streaming: every server passes its checks; the stream of A opens with status 404.
\<close>

definition stream_404_world :: "nat \<Rightarrow> server \<Rightarrow> world" where
  "stream_404_world n s =
     (if server_url s = ''http://a:11434''
      then fine_world\<lparr>stream := StreamOpened 404 (Str ''model not found'') [] None\<rparr>
      else fine_world)"

definition chat_request :: request where
  "chat_request =
     \<lparr>path = ''/api/chat'',
      json_data = Some [(''model'', JStr (Str ''qwen3'')), (''stream'', JBool False)]\<rparr>"



section \<open>Properties of the ranking\<close>

lemma map_fst_add_to_group:
  "map fst (add_to_group gs s) =
     (if priority s \<in> set (map fst gs) then map fst gs else map fst gs @ [priority s])"
  by (induction gs s rule: add_to_group.induct) auto

lemma map_of_add_to_group:
  "map_of (add_to_group gs s) =
     (map_of gs)(priority s \<mapsto> (case map_of gs (priority s) of None \<Rightarrow> [s] | Some g \<Rightarrow> g @ [s]))"
  by (induction gs s rule: add_to_group.induct) (auto simp: fun_eq_iff)

lemma priority_groups_snoc:
  "priority_groups (xs @ [x]) = add_to_group (priority_groups xs) x"
  by (simp add: priority_groups_def)

lemma keys_priority_groups:
  "set (map fst (priority_groups xs)) = priority ` set xs \<and> distinct (map fst (priority_groups xs))"
proof (induction xs rule: rev_induct)
  case Nil
  show ?case by (simp add: priority_groups_def)
next
  case (snoc x xs)
  then show ?case
    by (auto simp: priority_groups_snoc map_fst_add_to_group)
qed

lemma filter_priority_empty:
  "p \<notin> priority ` set xs \<Longrightarrow> filter (\<lambda>s. priority s = p) xs = []"
  by (auto simp: filter_empty_conv)

lemma map_of_priority_groups:
  "map_of (priority_groups xs) p =
     (if p \<in> priority ` set xs then Some (filter (\<lambda>s. priority s = p) xs) else None)"
proof (induction xs rule: rev_induct)
  case Nil
  show ?case by (simp add: priority_groups_def)
next
  case (snoc x xs)
  show ?case
  proof (cases "p = priority x")
    case True
    show ?thesis
    proof (cases "priority x \<in> priority ` set xs")
      case True
      with snoc \<open>p = priority x\<close> show ?thesis
        by (simp add: priority_groups_snoc map_of_add_to_group)
    next
      case False
      then have "filter (\<lambda>s. priority s = priority x) xs = []"
        by (rule filter_priority_empty)
      with False snoc \<open>p = priority x\<close> show ?thesis
        by (simp add: priority_groups_snoc map_of_add_to_group)
    qed
  next
    case False
    with snoc show ?thesis
      by (auto simp: priority_groups_snoc map_of_add_to_group)
  qed
qed

lemma group_servers_priority_groups:
  "group_servers (priority_groups xs) p = filter (\<lambda>s. priority s = p) xs"
proof (cases "p \<in> priority ` set xs")
  case True
  then show ?thesis by (simp add: group_servers_def map_of_priority_groups)
next
  case False
  then have "filter (\<lambda>s. priority s = p) xs = []"
    by (auto simp: filter_empty_conv)
  with False show ?thesis by (simp add: group_servers_def map_of_priority_groups)
qed

lemma mset_get_weighted_server_order [simp]:
  "mset (get_weighted_server_order xs) = mset xs"
  by (simp add: get_weighted_server_order_def)

lemma set_get_weighted_server_order [simp]:
  "set (get_weighted_server_order xs) = set xs"
  by (simp add: get_weighted_server_order_def)

lemma weights_descending:
  "sorted_wrt (\<lambda>a b. weight b \<le> weight a) (get_weighted_server_order xs)"
proof -
  have "sorted (map (\<lambda>x. - weight x) (sort_key (\<lambda>x. - weight x) xs))"
    by (rule sorted_sort_key)
  then have "sorted_wrt (\<lambda>a b. weight b \<le> weight a) (sort_key (\<lambda>x. - weight x) xs)"
    by (simp add: sorted_wrt_map)
  then show ?thesis
    by (cases xs) (auto simp: get_weighted_server_order_def length_Suc_conv)
qed

lemma weighted_order_stable:
  "filter (\<lambda>s. weight s = w) (get_weighted_server_order xs) = filter (\<lambda>s. weight s = w) xs"
proof -
  have "filter (\<lambda>s. - weight s = - w) (sort_key (\<lambda>x. - weight x) xs)
          = filter (\<lambda>s. - weight s = - w) xs"
    by (rule sort_key_stable)
  then show ?thesis by (simp add: get_weighted_server_order_def)
qed

lemma full_order_eq:
  "full_order xs =
     concat (map (\<lambda>p. get_weighted_server_order (filter (\<lambda>s. priority s = p) xs))
                 (sort (map fst (priority_groups xs))))"
  by (simp add: full_order_def group_servers_priority_groups)

lemma tier_mset:
  "distinct ps \<Longrightarrow>
     mset (concat (map (\<lambda>p. get_weighted_server_order (filter (\<lambda>s. priority s = p) xs)) ps))
       = mset (filter (\<lambda>s. priority s \<in> set ps) xs)"
proof (induction ps)
  case Nil
  show ?case by simp
next
  case (Cons p ps)
  have "mset (filter (\<lambda>s. priority s \<in> set (p # ps)) xs)
          = mset (filter (\<lambda>s. priority s = p) xs) + mset (filter (\<lambda>s. priority s \<in> set ps) xs)"
    using Cons.prems by (induction xs) auto
  with Cons show ?case by simp
qed

lemma tier_sorted:
  "sorted ps \<Longrightarrow> distinct ps \<Longrightarrow>
     sorted_wrt tried_before
       (concat (map (\<lambda>p. get_weighted_server_order (filter (\<lambda>s. priority s = p) xs)) ps))"
proof (induction ps)
  case Nil
  show ?case by simp
next
  case (Cons p ps)
  let ?g = "get_weighted_server_order (filter (\<lambda>s. priority s = p) xs)"
  have inside: "sorted_wrt tried_before ?g"
  proof -
    have w: "sorted_wrt (\<lambda>a b. weight b \<le> weight a) ?g" by (rule weights_descending)
    have "tried_before a b" if "a \<in> set ?g" "b \<in> set ?g" "weight b \<le> weight a" for a b
      using that by (simp add: tried_before_def)
    then show ?thesis
      by (rule sorted_wrt_mono_rel [OF _ w])
  qed
  have across: "tried_before a b"
    if "a \<in> set ?g"
      and "b \<in> set (concat (map (\<lambda>q. get_weighted_server_order (filter (\<lambda>s. priority s = q) xs)) ps))"
    for a b
  proof -
    from that(1) have pa: "priority a = p" by simp
    from that(2) have "priority b \<in> set ps" by auto
    with Cons.prems have "p < priority b" by (auto simp: less_le)
    with pa show ?thesis by (simp add: tried_before_def)
  qed
  from Cons have "sorted_wrt tried_before
       (concat (map (\<lambda>p. get_weighted_server_order (filter (\<lambda>s. priority s = p) xs)) ps))"
    by simp
  with inside across show ?case
    by (simp add: sorted_wrt_append)
qed

lemma tier_stable:
  "distinct ps \<Longrightarrow>
     filter (same_rank p w)
        (concat (map (\<lambda>q. get_weighted_server_order (filter (\<lambda>s. priority s = q) xs)) ps))
       = (if p \<in> set ps then filter (same_rank p w) xs else [])"
proof (induction ps)
  case Nil
  show ?case by simp
next
  case (Cons q ps)
  let ?g = "get_weighted_server_order (filter (\<lambda>s. priority s = q) xs)"
  have split: "filter (same_rank p w) ys = filter (\<lambda>s. priority s = p) (filter (\<lambda>s. weight s = w) ys)" for ys
    by (induction ys) (auto simp: same_rank_def)
  have head: "filter (same_rank p w) ?g = (if p = q then filter (same_rank p w) xs else [])"
  proof (cases "p = q")
    case True
    have "filter (same_rank p w) ?g
            = filter (\<lambda>s. priority s = p) (filter (\<lambda>s. weight s = w) (filter (\<lambda>s. priority s = q) xs))"
      by (simp add: split weighted_order_stable)
    also have "\<dots> = filter (same_rank p w) xs"
      using True by (induction xs) (auto simp: same_rank_def)
    finally show ?thesis using True by simp
  next
    case False
    then have "filter (same_rank p w) ?g = []"
      by (auto simp: filter_empty_conv same_rank_def)
    with False show ?thesis by simp
  qed
  from Cons have tail: "filter (same_rank p w)
        (concat (map (\<lambda>q. get_weighted_server_order (filter (\<lambda>s. priority s = q) xs)) ps))
       = (if p \<in> set ps then filter (same_rank p w) xs else [])" by simp
  from Cons.prems have "q \<notin> set ps" by simp
  with head tail show ?case by auto
qed

lemma tier_keys:
  "distinct (sort (map fst (priority_groups xs))) \<and> sorted (sort (map fst (priority_groups xs)))
     \<and> set (sort (map fst (priority_groups xs))) = priority ` set xs"
  using keys_priority_groups [of xs] by simp

lemma full_order_mset: "mset (full_order xs) = mset xs"
proof -
  define ps where "ps = sort (map fst (priority_groups xs))"
  have d: "distinct ps" and s: "set ps = priority ` set xs"
    using tier_keys [of xs] by (simp_all add: ps_def)
  have f: "filter (\<lambda>s. priority s \<in> set ps) xs = xs"
    by (rule filter_True) (simp add: s)
  have "full_order xs
          = concat (map (\<lambda>p. get_weighted_server_order (filter (\<lambda>s. priority s = p) xs)) ps)"
    by (simp only: full_order_eq ps_def)
  then show ?thesis
    by (simp only: tier_mset [OF d] f)
qed

lemma full_order_sorted: "sorted_wrt tried_before (full_order xs)"
proof -
  define ps where "ps = sort (map fst (priority_groups xs))"
  have d: "distinct ps" and o: "sorted ps"
    using tier_keys [of xs] by (simp_all add: ps_def)
  have "full_order xs
          = concat (map (\<lambda>p. get_weighted_server_order (filter (\<lambda>s. priority s = p) xs)) ps)"
    by (simp only: full_order_eq ps_def)
  then show ?thesis
    by (simp only: tier_sorted [OF o d])
qed

lemma full_order_stable: "filter (same_rank p w) (full_order xs) = filter (same_rank p w) xs"
proof -
  define ps where "ps = sort (map fst (priority_groups xs))"
  have d: "distinct ps" and s: "set ps = priority ` set xs"
    using tier_keys [of xs] by (simp_all add: ps_def)
  have e: "full_order xs
          = concat (map (\<lambda>p. get_weighted_server_order (filter (\<lambda>s. priority s = p) xs)) ps)"
    by (simp only: full_order_eq ps_def)
  show ?thesis
  proof (cases "p \<in> set ps")
    case True
    then show ?thesis by (simp only: e tier_stable [OF d] if_True)
  next
    case False
    then have "filter (same_rank p w) xs = []"
      unfolding s by (auto simp: filter_empty_conv same_rank_def)
    with False show ?thesis by (simp only: e tier_stable [OF d] if_False)
  qed
qed

lemma tried_before_key: "tried_before a b \<longleftrightarrow> rank_key a \<le> rank_key b"
  by (auto simp: tried_before_def rank_key_def)

lemma ranked_unique:
  assumes "mset ys = mset xs" and "sorted_wrt tried_before ys"
    and "\<And>p w. filter (same_rank p w) ys = filter (same_rank p w) xs"
  shows "sort_key rank_key xs = ys"
proof (rule properties_for_sort_key)
  show "mset ys = mset xs" by fact
  show "sorted (map rank_key ys)"
    using assms(2) by (simp add: sorted_wrt_map tried_before_key [abs_def])
  fix k
  have "(\<lambda>x. rank_key k = rank_key x) = same_rank (priority k) (weight k)"
    by (auto simp: rank_key_def same_rank_def fun_eq_iff)
  then show "filter (\<lambda>x. rank_key k = rank_key x) ys = filter (\<lambda>x. rank_key k = rank_key x) xs"
    using assms(3) by simp
qed

lemma full_order_sort_key: "full_order xs = sort_key rank_key xs"
  by (rule ranked_unique [symmetric]) (simp_all add: full_order_mset full_order_sorted full_order_stable)

lemma rank_filter_split:
  "filter (\<lambda>x. rank_key k = rank_key x) zs
     = filter (\<lambda>x. weight x = weight k) (filter (\<lambda>x. priority x = priority k) zs)"
  by (induction zs) (auto simp: rank_key_def)

text \<open>
  The retry order does not depend on the sort by priority the registry client applies:
  ties keep the order of the rows the query returned.
\<close>

lemma full_order_of_registry_rows:
  "full_order (get_servers_for_model rows) = full_order rows"
proof -
  have "sort_key rank_key rows = sort_key rank_key (sort_key priority rows)"
  proof (rule properties_for_sort_key)
    show "mset (sort_key rank_key (sort_key priority rows)) = mset rows" by simp
    show "sorted (map rank_key (sort_key rank_key (sort_key priority rows)))"
      by (rule sorted_sort_key)
    fix k
    have "filter (\<lambda>x. rank_key k = rank_key x) (sort_key rank_key (sort_key priority rows))
            = filter (\<lambda>x. rank_key k = rank_key x) (sort_key priority rows)"
      using sort_key_stable [of rank_key "rank_key k" "sort_key priority rows"]
      by (simp add: eq_commute)
    also have "\<dots> = filter (\<lambda>x. weight x = weight k)
                       (filter (\<lambda>x. priority x = priority k) (sort_key priority rows))"
      by (rule rank_filter_split)
    also have "filter (\<lambda>x. priority x = priority k) (sort_key priority rows)
                 = filter (\<lambda>x. priority x = priority k) rows"
      by (rule sort_key_stable)
    also have "filter (\<lambda>x. weight x = weight k) (filter (\<lambda>x. priority x = priority k) rows)
                 = filter (\<lambda>x. rank_key k = rank_key x) rows"
      by (rule rank_filter_split [symmetric])
    finally show "filter (\<lambda>x. rank_key k = rank_key x) (sort_key rank_key (sort_key priority rows))
            = filter (\<lambda>x. rank_key k = rank_key x) rows" .
  qed
  then show ?thesis
    by (simp add: full_order_sort_key get_servers_for_model_def)
qed

section \<open>Properties of the weighted-random pick\<close>

lemma cumulative_weight_Cons:
  "cumulative_weight (s # xs) (Suc n) = weight s + cumulative_weight xs n"
  by (simp add: cumulative_weight_def)

lemma walk_Some:
  "cumulative_walk r c xs = Some s \<Longrightarrow>
     \<exists>i<length xs. s = xs ! i \<and> r \<le> real_of_int (c + cumulative_weight xs (Suc i))
        \<and> (\<forall>j<i. real_of_int (c + cumulative_weight xs (Suc j)) < r)"
proof (induction xs arbitrary: c)
  case Nil
  then show ?case by simp
next
  case (Cons x xs)
  show ?case
  proof (cases "r \<le> real_of_int (c + weight x)")
    case True
    with Cons.prems have "s = x" by simp
    with True show ?thesis
      by (intro exI [of _ 0]) (simp add: cumulative_weight_def)
  next
    case False
    with Cons.prems have "cumulative_walk r (c + weight x) xs = Some s" by simp
    from Cons.IH [OF this] obtain i where i: "i < length xs" "s = xs ! i"
      "r \<le> real_of_int (c + weight x + cumulative_weight xs (Suc i))"
      "\<forall>j<i. real_of_int (c + weight x + cumulative_weight xs (Suc j)) < r"
      by blast
    have "\<forall>j<Suc i. real_of_int (c + cumulative_weight (x # xs) (Suc j)) < r"
    proof (intro allI impI)
      fix j assume "j < Suc i"
      show "real_of_int (c + cumulative_weight (x # xs) (Suc j)) < r"
      proof (cases j)
        case 0
        with False show ?thesis by (simp add: cumulative_weight_def)
      next
        case (Suc j')
        with \<open>j < Suc i\<close> i(4) show ?thesis
          by (simp add: cumulative_weight_Cons add.assoc)
      qed
    qed
    with i(1,2,3) show ?thesis
      by (intro exI [of _ "Suc i"]) (simp add: cumulative_weight_Cons add.assoc)
  qed
qed

lemma walk_None:
  "cumulative_walk r c xs = None \<Longrightarrow>
     \<forall>j<length xs. real_of_int (c + cumulative_weight xs (Suc j)) < r"
proof (induction xs arbitrary: c)
  case Nil
  then show ?case by simp
next
  case (Cons x xs)
  from Cons.prems have nx: "\<not> r \<le> real_of_int (c + weight x)"
    and rest: "cumulative_walk r (c + weight x) xs = None"
    by (simp_all split: if_splits)
  show ?case
  proof (intro allI impI)
    fix j assume "j < length (x # xs)"
    show "real_of_int (c + cumulative_weight (x # xs) (Suc j)) < r"
    proof (cases j)
      case 0
      with nx show ?thesis by (simp add: cumulative_weight_def)
    next
      case (Suc j')
      with \<open>j < length (x # xs)\<close> Cons.IH [OF rest] show ?thesis
        by (simp add: cumulative_weight_Cons add.assoc)
    qed
  qed
qed

lemma walk_in_set: "cumulative_walk r c xs = Some s \<Longrightarrow> s \<in> set xs"
  by (induction xs arbitrary: c) (auto split: if_splits)



lemma walk_None_iff:
  "cumulative_walk r 0 xs = None \<longleftrightarrow> (\<forall>i. \<not> captured_at xs r i)"
proof
  assume "cumulative_walk r 0 xs = None"
  from walk_None [OF this] show "\<forall>i. \<not> captured_at xs r i"
    by (auto simp: captured_at_def)
next
  assume none: "\<forall>i. \<not> captured_at xs r i"
  show "cumulative_walk r 0 xs = None"
  proof (rule ccontr)
    assume "cumulative_walk r 0 xs \<noteq> None"
    then obtain s where "cumulative_walk r 0 xs = Some s" by auto
    from walk_Some [OF this] obtain i where "captured_at xs r i"
      by (auto simp: captured_at_def)
    with none show False by blast
  qed
qed



section \<open>Claims about the ranking and the weighted-random pick\<close>

text \<open>
  C1. For every list of server records, the retry order of buffered dispatch is a
  rearrangement of the list (no record dropped or repeated) in which a record of lower
  priority value always stands before one of higher priority value and, inside one
  priority, a record never stands before one of greater weight; records of equal
  priority and weight keep the order the registry returned them in. The order is fully
  determined by the input: any list with these three properties is the computed one,
  so computing it again on the same input gives the same list.
\<close>

theorem full_order_ranked:
  "mset (full_order xs) = mset xs
   \<and> sorted_wrt tried_before (full_order xs)
   \<and> (\<forall>p w. filter (same_rank p w) (full_order xs) = filter (same_rank p w) xs)
   \<and> (\<forall>ys. mset ys = mset xs \<and> sorted_wrt tried_before ys
             \<and> (\<forall>p w. filter (same_rank p w) ys = filter (same_rank p w) xs)
           \<longrightarrow> ys = full_order xs)"
proof (intro conjI allI impI)
  show "mset (full_order xs) = mset xs" by (rule full_order_mset)
  show "sorted_wrt tried_before (full_order xs)" by (rule full_order_sorted)
  show "filter (same_rank p w) (full_order xs) = filter (same_rank p w) xs" for p w
    by (rule full_order_stable)
next
  fix ys
  assume a: "mset ys = mset xs \<and> sorted_wrt tried_before ys
             \<and> (\<forall>p w. filter (same_rank p w) ys = filter (same_rank p w) xs)"
  then have "sort_key rank_key xs = ys"
    by (intro ranked_unique) simp_all
  then show "ys = full_order xs" by (simp add: full_order_sort_key)
qed

theorem full_order_ranked_witness:
  "mset [server_B, server_A, server_C] = mset [server_A, server_B, server_C]
   \<and> sorted_wrt tried_before [server_B, server_A, server_C]
   \<and> (\<forall>p w. filter (same_rank p w) [server_B, server_A, server_C]
              = filter (same_rank p w) [server_A, server_B, server_C])
   \<and> full_order [server_A, server_B, server_C] = [server_B, server_A, server_C]"
proof -
  have m: "mset [server_B, server_A, server_C] = mset [server_A, server_B, server_C]"
    by simp
  have s: "sorted_wrt tried_before [server_B, server_A, server_C]"
    by (simp add: tried_before_def server_A_def server_B_def server_C_def candidate_def)
  have f: "\<forall>p w. filter (same_rank p w) [server_B, server_A, server_C]
              = filter (same_rank p w) [server_A, server_B, server_C]"
    by (simp add: same_rank_def server_A_def server_B_def server_C_def candidate_def)
  from full_order_ranked [of "[server_A, server_B, server_C]"] m s f
  have "[server_B, server_A, server_C] = full_order [server_A, server_B, server_C]"
    by blast
  with m s f show ?thesis by simp
qed



text \<open>
  C10. For every non-empty list, and every index \<open>k\<close> below its length that
  \<^verbatim>\<open>random.choice\<close> may draw, the selection returns an element of the list, never
  \<^verbatim>\<open>None\<close>, whatever value is drawn; when the walk over the cumulative weights does
  not capture the drawn value, the element returned is the last one of the list.
\<close>

theorem weighted_random_select_member:
  assumes "servers \<noteq> []" and "k < length servers"
  shows "\<exists>s. weighted_random_select u k servers = Some s \<and> s \<in> set servers
           \<and> (1 < length servers \<and> 0 < sum_list (map weight servers)
                \<and> (\<forall>i. \<not> captured_at servers
                            (uniform 0 (real_of_int (sum_list (map weight servers))) u) i)
               \<longrightarrow> s = last servers)"
proof (cases "length servers = 1")
  case True
  with assms(1) show ?thesis by (simp add: weighted_random_select_def)
next
  case many: False
  show ?thesis
  proof (cases "sum_list (map weight servers) \<le> 0")
    case True
    with many assms show ?thesis
      by (simp add: weighted_random_select_def choice_def)
  next
    case False
    define r where "r = uniform 0 (real_of_int (sum_list (map weight servers))) u"
    show ?thesis
    proof (cases "cumulative_walk r 0 servers")
      case None
      then have "\<forall>i. \<not> captured_at servers r i" by (simp add: walk_None_iff)
      with None many False assms(1) show ?thesis
        by (simp add: weighted_random_select_def r_def)
    next
      case (Some s)
      then have "\<not> (\<forall>i. \<not> captured_at servers r i)" by (simp flip: walk_None_iff)
      with Some many False assms(1) walk_in_set [OF Some] show ?thesis
        by (auto simp: weighted_random_select_def r_def)
    qed
  qed
qed

theorem weighted_random_select_member_witness:
  "[server_A, server_B] \<noteq> [] \<and> 0 < length [server_A, server_B]
   \<and> 1 < length [server_A, server_B] \<and> 0 < sum_list (map weight [server_A, server_B])
   \<and> (\<forall>i. \<not> captured_at [server_A, server_B]
              (uniform 0 (real_of_int (sum_list (map weight [server_A, server_B]))) 2) i)
   \<and> weighted_random_select 2 0 [server_A, server_B] = Some (last [server_A, server_B])"
  using weighted_random_select_member [of "[server_A, server_B]" 0 2]
  by (auto simp: weighted_random_select_def uniform_def captured_at_def cumulative_weight_def
        less_Suc_eq server_A_def server_B_def candidate_def)

section \<open>Properties of the resource gate\<close>

lemma format_1f_None: "format_1f v = None \<longleftrightarrow> (\<exists>x. v = JNum x) \<or> (\<exists>b. v = JBool b)"
  by (cases v) simp_all

lemma format_1f_numeric:
  "format_1f (get_default data key (JNum 0)) = None \<longleftrightarrow> numeric_or_absent data key"
proof (cases "map_of data key")
  case None
  then show ?thesis by (simp add: get_default_def numeric_or_absent_def)
next
  case (Some v)
  then show ?thesis
    by (cases v) (simp_all add: get_default_def numeric_or_absent_def)
qed

lemma first_format_error_three:
  "first_format_error [a, b, c] = None
     \<longleftrightarrow> format_1f a = None \<and> format_1f b = None \<and> format_1f c = None"
  by (simp split: option.splits)

lemma read_success_data_well_formed:
  assumes "well_formed_data d"
  shows "\<exists>data. d = JObj data
           \<and> read_success_data d = Inr (Sufficiency (get_default data ''sufficient'' (JBool False)) data)"
proof (cases d)
  case (JObj data)
  with assms have "first_format_error
      [get_default data ''total_gb'' (JNum 0), get_default data ''available_gb'' (JNum 0),
       get_default data ''usage_percent'' (JNum 0)] = None"
    by (simp only: first_format_error_three format_1f_numeric)
       (simp add: well_formed_data_def)
  with JObj show ?thesis by (simp add: read_success_data_def)
qed (use assms in \<open>simp_all add: well_formed_data_def\<close>)


lemma read_payload_well_formed:
  assumes "well_formed_payload parsed"
  shows "\<exists>result data. parsed = Some (JObj result)
           \<and> get_default result ''data'' (JObj []) = JObj data
           \<and> read_payload parsed = Inr (Sufficiency (get_default data ''sufficient'' (JBool False)) data)"
proof (cases parsed)
  case None
  with assms show ?thesis by (simp add: well_formed_payload_def)
next
  case (Some v)
  show ?thesis
  proof (cases v)
    case (JObj result)
    with Some assms have st: "map_of result ''status'' = Some (JStr (Str ''success''))"
      and wf: "well_formed_data (get_default result ''data'' (JObj []))"
      by (simp_all add: well_formed_payload_def)
    from read_success_data_well_formed [OF wf] obtain data where
      "get_default result ''data'' (JObj []) = JObj data"
      "read_success_data (get_default result ''data'' (JObj []))
         = Inr (Sufficiency (get_default data ''sufficient'' (JBool False)) data)"
      by blast
    with Some JObj st show ?thesis by (simp add: read_payload_def)
  qed (use Some assms in \<open>simp_all add: well_formed_payload_def\<close>)
qed


lemma check_skipped:
  assumes "name_given model_name"
    and "should_skip_resource_check (model_usage_history st) (time_at_skip_check W) url
           (name_of model_name)"
  shows "check_server_resource W url stype performance_gb model_name st
           = (Inr (JBool True,
                   [(''skipped'', JBool True), (''reason'', JStr (Str ''same_model_concurrent''))]),
              st)"
  using assms by (simp add: check_server_resource_def)

lemma check_unconvertible:
  assumes "\<not> (name_given model_name
             \<and> should_skip_resource_check (model_usage_history st) (time_at_skip_check W) url
                  (name_of model_name))"
    and "convert_url_to_resource_monitor W url stype = None"
  shows "check_server_resource W url stype performance_gb model_name st
           = (Inl (Exception (CannotConvertUrl url)), st)"
  using assms by (simp add: check_server_resource_def)


lemma check_success:
  assumes "\<not> (name_given model_name
             \<and> should_skip_resource_check (model_usage_history st) (time_at_skip_check W) url
                  (name_of model_name))"
    and "convert_url_to_resource_monitor W url stype = Some mu"
    and "well_formed_success (monitor W)"
  shows "\<exists>data. check_server_resource W url stype performance_gb model_name st
           = (Inr (reported_sufficient (monitor W), data),
              st\<lparr>events := events st @ [ResourceCheckPost mu stype performance_gb],
                 model_usage_history :=
                   (if name_given model_name
                    then track_model_usage (model_usage_history st) (time_at_track W) url
                           (name_of model_name)
                    else model_usage_history st)\<rparr>)"
proof -
  from assms(3) obtain body parsed where r: "monitor W = Response 200 body parsed"
    and wf: "well_formed_payload parsed"
    by (cases "monitor W") (simp_all add: well_formed_success_def)
  from read_payload_well_formed [OF wf] obtain result data where
    p: "parsed = Some (JObj result)" "get_default result ''data'' (JObj []) = JObj data"
       "read_payload parsed = Inr (Sufficiency (get_default data ''sufficient'' (JBool False)) data)"
    by blast
  from r p(1,2) have "reported_sufficient (monitor W) = get_default data ''sufficient'' (JBool False)"
    by (simp add: reported_sufficient_def)
  with r p(3) assms(1,2) show ?thesis
    by (cases "name_given model_name") (simp_all add: check_server_resource_def)
qed


section \<open>Claims about the resource gate\<close>








section \<open>Properties of the walk over the candidates\<close>

lemma try_servers_append:
  "try_servers Ws m rq (xs @ ys) w =
     (case try_servers Ws m rq xs w of
        (Some response, w') \<Rightarrow> (Some response, w')
      | (None, w') \<Rightarrow> try_servers Ws m rq ys w')"
proof (induction xs arbitrary: w)
  case Nil
  show ?case by simp
next
  case (Cons x xs)
  show ?case
    by (cases "try_single_server (Ws (total_attempts w + 1) x) m x rq (shared w)" rule: prod.exhaust)
       (auto simp: Let_def Cons.IH split: sum.splits)
qed

lemma try_priorities_flat:
  "try_priorities Ws m rq groups ps w =
     try_servers Ws m rq
       (concat (map (\<lambda>p. get_weighted_server_order (group_servers groups p)) ps)) w"
proof (induction ps arbitrary: w)
  case Nil
  show ?case by simp
next
  case (Cons p ps)
  show ?case
    by (simp add: try_servers_append Cons.IH split: prod.splits option.splits)
qed

lemma total_add_to_group:
  "sum_list (map (\<lambda>(p, servers). length servers) (add_to_group gs s))
     = Suc (sum_list (map (\<lambda>(p, servers). length servers) gs))"
  by (induction gs s rule: add_to_group.induct) auto

lemma total_servers_length:
  "sum_list (map (\<lambda>(p, servers). length servers) (priority_groups xs)) = length xs"
proof (induction xs rule: rev_induct)
  case Nil
  show ?case by (simp add: priority_groups_def)
next
  case (snoc x xs)
  then show ?case by (simp add: priority_groups_snoc total_add_to_group)
qed

lemma try_priorities_full_order:
  "try_priorities Ws m rq (priority_groups xs) (sort (map fst (priority_groups xs))) w
     = try_servers Ws m rq (full_order xs) w"
  by (simp add: try_priorities_flat full_order_def Let_def)

lemma proxy_model_request_flat:
  "xs \<noteq> [] \<Longrightarrow>
   proxy_model_request Ws m rq xs st =
     (case try_servers Ws m rq (full_order xs) (start_walk st) of
        (Some response, w) \<Rightarrow> (Inr response, w)
      | (None, w) \<Rightarrow>
          (Inl (HTTPException 503
                  (AllServersUnavailable m (length xs) (str_of_last (last_error w)))), w))"
  unfolding proxy_model_request_def Let_def total_servers_length try_priorities_full_order
  by simp


text \<open>The walk returned a response: the servers before the one that answered failed.\<close>

lemma try_servers_answered:
  "try_servers Ws m rq xs w = (Some response, w') \<Longrightarrow>
     \<exists>before s after st.
        xs = before @ s # after
        \<and> attempted w' = attempted w @ before @ [s]
        \<and> total_attempts w' = total_attempts w + length before + 1
        \<and> fst (try_single_server (Ws (total_attempts w') s) m s rq st) = Inr response"
proof (induction xs arbitrary: w)
  case Nil
  then show ?case by simp
next
  case (Cons x xs)
  obtain r st' where step: "try_single_server (Ws (total_attempts w + 1) x) m x rq (shared w) = (r, st')"
    by (cases "try_single_server (Ws (total_attempts w + 1) x) m x rq (shared w)")
  show ?case
  proof (cases r)
    case (Inr resp)
    with step Cons.prems have "resp = response"
      and "w' = w\<lparr>total_attempts := total_attempts w + 1, attempted := attempted w @ [x],
                    shared := st'\<rparr>"
      by (simp_all add: Let_def)
    with Inr step show ?thesis
      by (intro exI [of _ "[]"] exI [of _ x] exI [of _ xs] exI [of _ "shared w"]) simp
  next
    case (Inl e)
    define w1 where "w1 = w\<lparr>last_error := Some e, total_attempts := total_attempts w + 1,
                  attempted := attempted w @ [x], shared := st'\<rparr>"
    from Inl step Cons.prems have rest: "try_servers Ws m rq xs w1 = (Some response, w')"
      by (simp add: Let_def w1_def)
    from Cons.IH [OF rest] obtain before s after st where
      "xs = before @ s # after" "attempted w' = attempted w1 @ before @ [s]"
      "total_attempts w' = total_attempts w1 + length before + 1"
      "fst (try_single_server (Ws (total_attempts w') s) m s rq st) = Inr response"
      by blast
    then show ?thesis
      by (intro exI [of _ "x # before"] exI [of _ s] exI [of _ after] exI [of _ st])
         (simp add: w1_def)
  qed
qed

lemma full_order_tiers:
  "full_order [server_A, server_B, server_C] = [server_B, server_A, server_C]"
  by (simp add: full_order_def priority_groups_def group_servers_def
        get_weighted_server_order_def server_A_def server_B_def server_C_def candidate_def)

lemma full_order_A_C:
  "full_order [server_A, server_C] = [server_A, server_C]"
  by (simp add: full_order_def priority_groups_def group_servers_def
        get_weighted_server_order_def server_A_def server_C_def candidate_def)

lemma gate_unhealthy:
  "\<not> check_server_health (health W) \<Longrightarrow>
     gate_server W m s st
       = (Some (Exception (HealthCheckFailed (server_url s))),
          st\<lparr>events := events st @ [HealthProbe (server_url s)]\<rparr>)"
  by (simp add: gate_server_def)

lemma attempt_unhealthy:
  "\<not> check_server_health (health W) \<Longrightarrow>
     try_single_server W m s rq st
       = (Inl (Exception (HealthCheckFailed (server_url s))),
          st\<lparr>events := events st @ [HealthProbe (server_url s)]\<rparr>)"
  by (simp add: try_single_server_def gate_unhealthy)

lemma attempt_gated:
  "gate_server W m s st = (None, st1) \<Longrightarrow>
     try_single_server W m s rq st = forward_request W m s rq st1"
  by (simp add: try_single_server_def)

lemma sufficient_payload_well_formed: "well_formed_payload (Some sufficient_payload)"
  by (simp add: well_formed_payload_def well_formed_data_def numeric_or_absent_def
        get_default_def sufficient_payload_def)

lemma sufficient_payload_reported:
  "reported_sufficient (Response 200 b (Some sufficient_payload)) = JBool True"
  by (simp add: reported_sufficient_def get_default_def sufficient_payload_def)

text \<open>A healthy server whose monitor reports enough capacity passes both checks.\<close>

lemma gate_passes:
  assumes "check_server_health (health W)"
    and "urlparse W (server_url s) = Some (scheme, host)"
    and "monitor W = Response 200 b (Some sufficient_payload)"
  shows "\<exists>st1. gate_server W m s st = (None, st1)"
proof (cases "skip_resource_check s")
  case True
  with assms(1) show ?thesis by (simp add: gate_server_def)
next
  case False
  define probed where "probed = st\<lparr>events := events st @ [HealthProbe (server_url s)]\<rparr>"
  show ?thesis
  proof (cases "name_given (Some m)
             \<and> should_skip_resource_check (model_usage_history probed) (time_at_skip_check W)
                  (server_url s) (name_of (Some m))")
    case True
    then have "check_server_resource W (server_url s) (server_type s) (performance s) (Some m) probed
           = (Inr (JBool True,
                   [(''skipped'', JBool True), (''reason'', JStr (Str ''same_model_concurrent''))]),
              probed)"
      by (intro check_skipped) simp_all
    with False assms(1) show ?thesis
      by (simp add: gate_server_def probed_def [symmetric])
  next
    case ns: False
    from assms(2) obtain mu where
      mu: "convert_url_to_resource_monitor W (server_url s) (server_type s) = Some mu"
      by (simp add: convert_url_to_resource_monitor_def)
    from assms(3) have wf: "well_formed_success (monitor W)"
      by (simp add: well_formed_success_def sufficient_payload_well_formed)
    from check_success [OF ns mu wf, of "performance s"] assms(3)
    obtain data st1 where
      "check_server_resource W (server_url s) (server_type s) (performance s) (Some m) probed
         = (Inr (JBool True, data), st1)"
      by (auto simp: sufficient_payload_reported)
    with False assms(1) show ?thesis
      by (simp add: gate_server_def probed_def [symmetric])
  qed
qed

section \<open>Claims about buffered dispatch\<close>



section \<open>Properties of a single attempt\<close>



lemma failed_attempt_never_ends:
  "try_single_server (Ws (total_attempts w + 1) s) m s rq (shared w) = (Inl e, st') \<Longrightarrow>
     try_servers Ws m rq (s # rest) w
       = try_servers Ws m rq rest
           (w\<lparr>last_error := Some e, total_attempts := total_attempts w + 1,
              attempted := attempted w @ [s], shared := st'\<rparr>)"
  by (simp add: Let_def)






lemma forward_model_response:
  assumes "backend W = Response 200 body (Some (JObj d))" and "map_of d ''model'' \<noteq> None"
  shows "forward_request W m s rq st
           = (Inr (JObj (setitem d ''model'' (JStr (Str m)))),
              st\<lparr>events := events st
                    @ [Forward (server_url s) (path rq)
                         (rewrite_request (json_data rq) (actual_model_name s)),
                       IncrementServerCount (server_id s)]\<rparr>)"
  using assms by (simp add: forward_request_def status_error_def translate_response_def)

lemma tiers_walk:
  assumes "\<forall>n. \<not> check_server_health (health (Ws n server_A))"
    and "\<forall>n. \<not> check_server_health (health (Ws n server_B))"
    and "check_server_health (health (Ws 3 server_C))"
    and "urlparse (Ws 3 server_C) (server_url server_C) = Some (scheme, host)"
    and "monitor (Ws 3 server_C) = Response 200 b (Some sufficient_payload)"
    and "backend (Ws 3 server_C) = Response 200 body (Some (JObj d))"
    and "map_of d ''model'' \<noteq> None"
  shows "\<exists>w. proxy_model_request Ws m rq [server_A, server_B, server_C] st
               = (Inr (JObj (setitem d ''model'' (JStr (Str m)))), w)
            \<and> attempted w = [server_B, server_A, server_C] \<and> total_attempts w = 3"
proof -
  define st1 where "st1 = st\<lparr>events := events st @ [HealthProbe (server_url server_B)]\<rparr>"
  define st2 where "st2 = st1\<lparr>events := events st1 @ [HealthProbe (server_url server_A)]\<rparr>"
  from assms(2) have a1: "try_single_server (Ws (Suc 0) server_B) m server_B rq st
      = (Inl (Exception (HealthCheckFailed (server_url server_B))), st1)"
    by (simp add: attempt_unhealthy st1_def)
  from assms(1) have a2: "try_single_server (Ws (Suc (Suc 0)) server_A) m server_A rq st1
      = (Inl (Exception (HealthCheckFailed (server_url server_A))), st2)"
    by (simp add: attempt_unhealthy st2_def)
  have three: "Suc (Suc (Suc 0)) = 3" by simp
  from gate_passes [OF assms(3,4,5), of m st2]
  obtain st3 where g: "gate_server (Ws 3 server_C) m server_C st2 = (None, st3)" ..
  define st4 where "st4 = st3\<lparr>events := events st3
                    @ [Forward (server_url server_C) (path rq)
                         (rewrite_request (json_data rq) (actual_model_name server_C)),
                       IncrementServerCount (server_id server_C)]\<rparr>"
  have a3: "try_single_server (Ws (Suc (Suc (Suc 0))) server_C) m server_C rq st2
      = (Inr (JObj (setitem d ''model'' (JStr (Str m)))), st4)"
    unfolding three
    by (simp only: attempt_gated [OF g] forward_model_response [OF assms(6,7)] st4_def)
  have "try_servers Ws m rq [server_B, server_A, server_C] (start_walk st)
      = (Some (JObj (setitem d ''model'' (JStr (Str m)))),
         \<lparr>last_error = Some (Exception (HealthCheckFailed (server_url server_A))),
          total_attempts = 3, attempted = [server_B, server_A, server_C], shared = st4\<rparr>)"
    using a1 a2 a3 by (simp add: start_walk_def)
  then show ?thesis
    by (simp add: proxy_model_request_flat full_order_tiers)
qed

section \<open>Claims about the classification of backend answers and the example of the tiers\<close>




text \<open>
  C2, as stated, fails on the order of the attempts. In the example world (A and B fail
  the health check, C is healthy, has enough capacity and answers) the dispatch returns
  the translated response of C, but the servers are tried in the order B, A, C: inside
  priority 1 the heavier B (weight 70) stands before A (weight 30).
\<close>

theorem tiers_attempt_order:
  "\<not> check_server_health (health (tiers_world 1 server_B))
   \<and> \<not> check_server_health (health (tiers_world 2 server_A))
   \<and> check_server_health (health (tiers_world 3 server_C))
   \<and> fst (proxy_model_request tiers_world ''qwen3'' chat_request
             [server_A, server_B, server_C] idle_state)
       = Inr (JObj [(''model'', JStr (Str ''qwen3'')), (''done'', JBool True)])
   \<and> attempted (snd (proxy_model_request tiers_world ''qwen3'' chat_request
                        [server_A, server_B, server_C] idle_state))
       = [server_B, server_A, server_C]
   \<and> attempted (snd (proxy_model_request tiers_world ''qwen3'' chat_request
                        [server_A, server_B, server_C] idle_state))
       \<noteq> [server_A, server_B, server_C]"
proof -
  have wa: "tiers_world n server_A = fine_world\<lparr>health := HealthRaised\<rparr>"
    and wb: "tiers_world n server_B = fine_world\<lparr>health := HealthRaised\<rparr>"
    and wc: "tiers_world n server_C = fine_world" for n
    by (simp_all add: tiers_world_def server_A_def server_B_def server_C_def candidate_def)
  have down: "\<forall>n. \<not> check_server_health (health (tiers_world n server_A))"
    "\<forall>n. \<not> check_server_health (health (tiers_world n server_B))"
    by (simp_all add: wa wb check_server_health_def)
  have up: "check_server_health (health (tiers_world 3 server_C))"
    "urlparse (tiers_world 3 server_C) (server_url server_C) = Some (''http'', ''host'')"
    "monitor (tiers_world 3 server_C) = Response 200 (Str ''{...}'') (Some sufficient_payload)"
    "backend (tiers_world 3 server_C) = Response 200 (Str ''{...}'')
          (Some (JObj [(''model'', JStr (Str ''qwen3:14b'')), (''done'', JBool True)]))"
    by (simp_all add: wc fine_world_def check_server_health_def)
  have "map_of [(''model'', JStr (Str ''qwen3:14b'')), (''done'', JBool True)] ''model'' \<noteq> None"
    by simp
  from tiers_walk [OF down up this, of "''qwen3''" chat_request idle_state]
  obtain w where "proxy_model_request tiers_world ''qwen3'' chat_request
             [server_A, server_B, server_C] idle_state
       = (Inr (JObj [(''model'', JStr (Str ''qwen3'')), (''done'', JBool True)]), w)"
    "attempted w = [server_B, server_A, server_C]"
    by auto
  moreover have "server_B \<noteq> server_A"
    by (simp add: server_A_def server_B_def candidate_def)
  ultimately show ?thesis using down up(1) by simp
qed

text \<open>
  C2, amended. Given the tiers priority 1: A (weight 30), B (weight 70) and priority 2:
  C (weight 100), where A and B fail their health check and C is healthy, is reported
  to have enough capacity and answers the request with status 200 and a JSON object
  that carries a \<^verbatim>\<open>model\<close> field, a buffered dispatch returns the response of C with
  the \<^verbatim>\<open>model\<close> field set to the virtual model name, having attempted B, then A,
  then C.
\<close>

theorem tiers_example_dispatch:
  assumes "\<forall>n. \<not> check_server_health (health (Ws n server_A))"
    and "\<forall>n. \<not> check_server_health (health (Ws n server_B))"
    and "check_server_health (health (Ws 3 server_C))"
    and "urlparse (Ws 3 server_C) (server_url server_C) = Some (scheme, host)"
    and "monitor (Ws 3 server_C) = Response 200 b (Some sufficient_payload)"
    and "backend (Ws 3 server_C) = Response 200 body (Some (JObj d))"
    and "map_of d ''model'' \<noteq> None"
  shows "fst (proxy_model_request Ws m rq [server_A, server_B, server_C] st)
           = Inr (JObj (setitem d ''model'' (JStr (Str m))))
       \<and> attempted (snd (proxy_model_request Ws m rq [server_A, server_B, server_C] st))
           = [server_B, server_A, server_C]
       \<and> total_attempts (snd (proxy_model_request Ws m rq [server_A, server_B, server_C] st)) = 3"
  using tiers_walk [OF assms, of m rq st] by auto

theorem tiers_example_dispatch_witness:
  "(\<forall>n. \<not> check_server_health (health (tiers_world n server_A)))
   \<and> (\<forall>n. \<not> check_server_health (health (tiers_world n server_B)))
   \<and> check_server_health (health (tiers_world 3 server_C))
   \<and> urlparse (tiers_world 3 server_C) (server_url server_C) = Some (''http'', ''host'')
   \<and> monitor (tiers_world 3 server_C) = Response 200 (Str ''{...}'') (Some sufficient_payload)
   \<and> backend (tiers_world 3 server_C) = Response 200 (Str ''{...}'')
          (Some (JObj [(''model'', JStr (Str ''qwen3:14b'')), (''done'', JBool True)]))
   \<and> fst (proxy_model_request tiers_world ''qwen3'' chat_request
             [server_A, server_B, server_C] idle_state)
       = Inr (JObj [(''model'', JStr (Str ''qwen3'')), (''done'', JBool True)])
   \<and> attempted (snd (proxy_model_request tiers_world ''qwen3'' chat_request
                        [server_A, server_B, server_C] idle_state))
       = [server_B, server_A, server_C]
   \<and> total_attempts (snd (proxy_model_request tiers_world ''qwen3'' chat_request
                        [server_A, server_B, server_C] idle_state)) = 3"
proof -
  have wa: "tiers_world n server_A = fine_world\<lparr>health := HealthRaised\<rparr>"
    and wb: "tiers_world n server_B = fine_world\<lparr>health := HealthRaised\<rparr>"
    and wc: "tiers_world n server_C = fine_world" for n
    by (simp_all add: tiers_world_def server_A_def server_B_def server_C_def candidate_def)
  have down: "\<forall>n. \<not> check_server_health (health (tiers_world n server_A))"
    "\<forall>n. \<not> check_server_health (health (tiers_world n server_B))"
    by (simp_all add: wa wb check_server_health_def)
  have up: "check_server_health (health (tiers_world 3 server_C))"
    "urlparse (tiers_world 3 server_C) (server_url server_C) = Some (''http'', ''host'')"
    "monitor (tiers_world 3 server_C) = Response 200 (Str ''{...}'') (Some sufficient_payload)"
    "backend (tiers_world 3 server_C) = Response 200 (Str ''{...}'')
          (Some (JObj [(''model'', JStr (Str ''qwen3:14b'')), (''done'', JBool True)]))"
    by (simp_all add: wc fine_world_def check_server_health_def)
  have m: "map_of [(''model'', JStr (Str ''qwen3:14b'')), (''done'', JBool True)] ''model'' \<noteq> None"
    by simp
  from tiers_example_dispatch [OF down up m, of "''qwen3''" chat_request idle_state] down up
  show ?thesis by simp
qed

section \<open>Properties of streaming dispatch\<close>

lemma stream_servers_append:
  "stream_servers Ws m (xs @ ys) w =
     (case stream_servers Ws m xs w of
        (Some response, w') \<Rightarrow> (Some response, w')
      | (None, w') \<Rightarrow> stream_servers Ws m ys w')"
proof (induction xs arbitrary: w)
  case Nil
  show ?case by simp
next
  case (Cons x xs)
  show ?case
    by (cases "gate_server (Ws (total_attempts w + 1) x) m x (shared w)" rule: prod.exhaust)
       (auto simp: Let_def Cons.IH split: option.splits)
qed

lemma stream_priorities_flat:
  "stream_priorities Ws m groups ps w =
     stream_servers Ws m
       (concat (map (\<lambda>p. get_weighted_server_order (group_servers groups p)) ps)) w"
proof (induction ps arbitrary: w)
  case Nil
  show ?case by simp
next
  case (Cons p ps)
  show ?case
    by (simp add: stream_servers_append Cons.IH split: prod.splits option.splits)
qed

lemma proxy_streaming_request_flat:
  "xs \<noteq> [] \<Longrightarrow>
   proxy_streaming_request Ws m xs st =
     (case stream_servers Ws m (full_order xs) (start_walk st) of
        (Some response, w) \<Rightarrow> (Inr response, w)
      | (None, w) \<Rightarrow>
          (Inl (HTTPException 503
                  (AllServersUnavailableStreaming m (length xs) (str_of_last (last_error w)))),
           w))"
  unfolding proxy_streaming_request_def Let_def total_servers_length stream_priorities_flat
  by (simp add: full_order_def Let_def)

text \<open>
  The first server that passes its checks is the one the response streams from: the
  loop returns there, whatever the status its stream will open with.
\<close>

lemma stream_servers_first_gated:
  "gate_server (Ws (total_attempts w + 1) s) m s (shared w) = (None, st1) \<Longrightarrow>
     stream_servers Ws m (s # rest) w
       = (Some (StreamingResponse s (total_attempts w + 1)),
          w\<lparr>total_attempts := total_attempts w + 1, attempted := attempted w @ [s],
             shared := st1\<rparr>)"
  by (simp add: Let_def)

lemma failed_opening_status_emits_error:
  assumes "stream W = StreamOpened status_code body chunks broken" and "400 \<le> status_code"
  shows "\<exists>msg. fst (stream_generator W m s rq) = [ErrorEvent (StreamingException msg)]"
  using assms by (simp add: stream_generator_def Let_def)

lemma broken_stream_ends_with_error:
  assumes "stream W = StreamOpened status_code body chunks (Some e)" and "status_code < 400"
  shows "fst (stream_generator W m s rq)
           = concat (map (forward_chunk m) chunks) @ [ErrorEvent (StreamingException e)]"
  using assms by (simp add: stream_generator_def Let_def)

section \<open>Claim about streaming dispatch\<close>

text \<open>
  C3 does not hold of the code. Servers A (priority 1) and C (priority 2) both pass the
  health check and the resource check; the stream of A opens with status 404. The
  dispatch returns the streaming response of A after one attempt; its body is the
  error event alone, emitted to the caller, and C is never tried. The exception raised
  for the status, whose log line announces that the next server will be tried, is
  caught by the generator's own handler, after \<^verbatim>\<open>proxy_streaming_request\<close> has returned.
\<close>

theorem stream_404_no_fallback:
  "stream (stream_404_world 1 server_A) = StreamOpened 404 (Str ''model not found'') [] None
   \<and> check_server_health (health (stream_404_world 2 server_C))
   \<and> fst (proxy_streaming_request stream_404_world ''qwen3'' [server_A, server_C] idle_state)
       = Inr (StreamingResponse server_A 1)
   \<and> attempted (snd (proxy_streaming_request stream_404_world ''qwen3''
                        [server_A, server_C] idle_state)) = [server_A]
   \<and> response_body stream_404_world ''qwen3'' chat_request (StreamingResponse server_A 1)
       = [ErrorEvent (StreamingException (ModelOrEndpointNotFound 404))]"
proof -
  have wa: "stream_404_world n server_A
      = fine_world\<lparr>stream := StreamOpened 404 (Str ''model not found'') [] None\<rparr>" for n
    by (simp add: stream_404_world_def server_A_def candidate_def)
  have wc: "stream_404_world n server_C = fine_world" for n
    by (simp add: stream_404_world_def server_C_def candidate_def)
  have fine: "check_server_health (health fine_world)"
    "urlparse fine_world u = Some (''http'', ''host'')"
    "monitor fine_world = Response 200 (Str ''{...}'') (Some sufficient_payload)" for u
    by (simp_all add: fine_world_def check_server_health_def)
  from gate_passes
    [of "stream_404_world (total_attempts (start_walk idle_state) + 1) server_A" server_A
        _ _ _ "''qwen3''" "shared (start_walk idle_state)"]
  obtain st1 where
    g: "gate_server (stream_404_world (total_attempts (start_walk idle_state) + 1) server_A)
          ''qwen3'' server_A (shared (start_walk idle_state)) = (None, st1)"
    by (auto simp: wa fine)
  have "stream_servers stream_404_world ''qwen3'' [server_A, server_C] (start_walk idle_state)
      = (Some (StreamingResponse server_A 1),
         \<lparr>last_error = None, total_attempts = 1, attempted = [server_A], shared = st1\<rparr>)"
    by (simp only: stream_servers_first_gated
          [where Ws = stream_404_world and w = "start_walk idle_state" and s = server_A, OF g])
       (simp add: start_walk_def)
  then have "proxy_streaming_request stream_404_world ''qwen3'' [server_A, server_C] idle_state
      = (Inr (StreamingResponse server_A 1),
         \<lparr>last_error = None, total_attempts = 1, attempted = [server_A], shared = st1\<rparr>)"
    by (simp add: proxy_streaming_request_flat full_order_A_C)
  moreover have "response_body stream_404_world ''qwen3'' chat_request
                   (StreamingResponse server_A 1)
       = [ErrorEvent (StreamingException (ModelOrEndpointNotFound 404))]"
    by (simp add: wa stream_generator_def)
  ultimately show ?thesis by (simp add: wa wc fine)
qed

end
